theory Spec2Isabelle
  imports Complex_Main "HOL-Library.Word"
begin

section \<open>Values of the source language\<close>

text \<open>
  The player is a TypeScript/React component (\<^verbatim>\<open>src/App.tsx\<close>). A number of the program
  is a double-precision float; the model holds its value as a real. The sums of at most
  1024 bytes and the differences of millisecond clock values are integers far below
  \<open>2 ^ 53\<close> and are computed exactly by the program. The accumulated speech seconds are
  not: every addition of the step rounds, and the model rounds in the same way. The score
  quotient and the cooldown product are kept unrounded. A \<^verbatim>\<open>Uint8Array\<close> is a list of
  8-bit words.
\<close>

type_synonym number = real

text \<open>
  Rounding of a real to the nearest double, ties to the even significand: 53 bits of
  significand, and no exponent below that of the subnormal numbers. \<open>binade x\<close> is the
  \<open>p\<close> with \<open>2 ^ (p - 1) \<le> x < 2 ^ p\<close>. Results beyond the largest finite double, where
  the program would hold \<^verbatim>\<open>Infinity\<close>, are not modelled: the sum of a finite double and
  0.2 never gets there.
\<close>

fun bit_length :: "nat \<Rightarrow> nat" where
  "bit_length n = (if n = 0 then 0 else Suc (bit_length (n div 2)))"

declare bit_length.simps [simp del]

definition binade :: "real \<Rightarrow> int" where
  "binade x =
     (if 1 \<le> x then int (bit_length (nat \<lfloor>x\<rfloor>))
      else 1 - int (bit_length (nat (\<lceil>1 / x\<rceil> - 1))))"

definition pow2 :: "int \<Rightarrow> real" where
  "pow2 e = (if 0 \<le> e then 2 ^ nat e else 1 / 2 ^ nat (- e))"

definition round_half_even :: "real \<Rightarrow> int" where
  "round_half_even y =
     (let f = \<lfloor>y\<rfloor>; r = y - of_int f
      in if r < 1 / 2 then f else if 1 / 2 < r then f + 1 else if even f then f else f + 1)"

definition round_double :: "real \<Rightarrow> number" where
  "round_double x =
     (if x = 0 then 0
      else let a = \<bar>x\<bar>;
               e = max (binade a - 53) (- 1074);
               m = round_half_even (a / pow2 e)
           in sgn x * (of_int m * pow2 e))"

text \<open>\<^verbatim>\<open>x + y\<close> on two numbers: the exact sum, rounded.\<close>

definition js_add :: "number \<Rightarrow> number \<Rightarrow> number" where
  "js_add x y = round_double (x + y)"

text \<open>What an expression of type \<^verbatim>\<open>T | null | undefined\<close> evaluates to.\<close>

datatype 'a js_value = Null | Undefined | Val 'a

text \<open>\<^verbatim>\<open>xs[i]\<close>: reading outside the array gives \<^verbatim>\<open>undefined\<close>.\<close>

definition js_index :: "'a list \<Rightarrow> int \<Rightarrow> 'a js_value" where
  "js_index xs i = (if 0 \<le> i \<and> i < int (length xs) then Val (xs ! nat i) else Undefined)"

text \<open>\<^verbatim>\<open>a % b\<close>: the remainder takes the sign of the dividend.\<close>

definition js_rem :: "int \<Rightarrow> int \<Rightarrow> int" where
  "js_rem a b = sgn a * (\<bar>a\<bar> mod \<bar>b\<bar>)"

text \<open>\<^verbatim>\<open>xs.indexOf(x)\<close>: the first position holding \<open>x\<close>, or \<open>-1\<close>.\<close>

fun indexOfFrom :: "'a list \<Rightarrow> 'a \<Rightarrow> int \<Rightarrow> int" where
  "indexOfFrom [] x k = -1"
| "indexOfFrom (y # ys) x k = (if y = x then k else indexOfFrom ys x (k + 1))"

definition indexOf :: "'a list \<Rightarrow> 'a \<Rightarrow> int" where
  "indexOf xs x = indexOfFrom xs x 0"

text \<open>
  \<^verbatim>\<open>xs.slice(start, end)\<close> on a typed array: a negative bound counts from the end, both
  bounds are clamped to the array, and an empty range gives an empty array.
\<close>

definition js_slice :: "'a list \<Rightarrow> int \<Rightarrow> int \<Rightarrow> 'a list" where
  "js_slice xs start end' =
     (let len = int (length xs);
          k = (if start < 0 then max (len + start) 0 else min start len);
          final = (if end' < 0 then max (len + end') 0 else min end' len);
          count = max (final - k) 0
      in take (nat count) (drop (nat k) xs))"

text \<open>\<^verbatim>\<open>xs.reduce((acc, value) => acc + value, 0)\<close>.\<close>

definition reduce_sum :: "8 word list \<Rightarrow> number" where
  "reduce_sum xs = foldl (\<lambda>acc v. acc + real (unat v)) 0 xs"

text \<open>Truthiness of a string-valued expression: \<^verbatim>\<open>null\<close>, \<^verbatim>\<open>undefined\<close> and \<^verbatim>\<open>''\<close> are falsy.\<close>

fun truthy :: "string js_value \<Rightarrow> bool" where
  "truthy Null = False"
| "truthy Undefined = False"
| "truthy (Val s) = (s \<noteq> [])"

section \<open>Speech scorer\<close>

text \<open>
  The band bounds are computed once per run of the detection effect from the audio
  context's sample rate and the length of the byte array (lines 630-636):
  \<^verbatim>\<open>nyquist = sampleRate / 2\<close>, \<^verbatim>\<open>startIndex = Math.floor((300 / nyquist) * length)\<close>,
  \<^verbatim>\<open>endIndex = Math.min(length - 1, Math.floor((3000 / nyquist) * length))\<close>.
\<close>

definition startIndexOf :: "number \<Rightarrow> nat \<Rightarrow> int" where
  "startIndexOf sampleRate len = (let nyquist = sampleRate / 2 in \<lfloor>(300 / nyquist) * real len\<rfloor>)"

definition endIndexOf :: "number \<Rightarrow> nat \<Rightarrow> int" where
  "endIndexOf sampleRate len =
     (let nyquist = sampleRate / 2 in min (int len - 1) \<lfloor>(3000 / nyquist) * real len\<rfloor>)"

text \<open>The score of one tick (lines 654-658).\<close>

definition scoreOf :: "8 word list \<Rightarrow> int \<Rightarrow> int \<Rightarrow> number" where
  "scoreOf dataArray startIndex endIndex =
     (let total = reduce_sum dataArray;
          mid = reduce_sum (js_slice dataArray startIndex endIndex)
      in if total = 0 then 0 else mid / total)"

definition score :: "8 word list \<Rightarrow> number \<Rightarrow> number" where
  "score dataArray sampleRate =
     scoreOf dataArray (startIndexOf sampleRate (length dataArray))
                       (endIndexOf sampleRate (length dataArray))"

text \<open>
  The scorer as the specification words it: the ratio of the magnitudes in the half-open
  index range \<open>[startIndex, endIndex)\<close> to the magnitudes of all bins, and 0 for a silent
  snapshot.
\<close>

definition spec_score :: "8 word list \<Rightarrow> number \<Rightarrow> number" where
  "spec_score snapshot sampleRateHz =
     (let binCount = length snapshot;
          nyquist = sampleRateHz / 2;
          startIndex = \<lfloor>300 / nyquist * real binCount\<rfloor>;
          endIndex = min (int binCount - 1) \<lfloor>3000 / nyquist * real binCount\<rfloor>;
          mid = (\<Sum>i = startIndex..<endIndex. real (unat (snapshot ! nat i)));
          total = (\<Sum>i = 0..<binCount. real (unat (snapshot ! i)))
      in if total = 0 then 0 else mid / total)"

section \<open>Fallback rotation\<close>

text \<open>\<^verbatim>\<open>nextFallback\<close> (lines 452-461), with the list and the current id it closes over.\<close>

definition nextFallback :: "string list \<Rightarrow> string \<Rightarrow> string js_value" where
  "nextFallback fallbacks currentId =
     (if length fallbacks = 0 then Null
      else let currentIndex = indexOf fallbacks currentId in
        if currentIndex = -1 then js_index fallbacks 0
        else js_index fallbacks (js_rem (currentIndex + 1) (int (length fallbacks))))"

section \<open>State of the detection loop\<close>

record TalkKillerSettings =
  enabled :: bool
  speechSeconds :: number
  sensitivity :: number
  cooldownSeconds :: number

definition defaultSettings :: TalkKillerSettings where
  "defaultSettings = \<lparr>enabled = True, speechSeconds = 6, sensitivity = 0.6, cooldownSeconds = 12\<rparr>"

text \<open>
  What the interval callback created by one run of the detection effect closes over: the
  settings, current id and fallback list of that render, and the band bounds computed
  from the sample rate.
\<close>

record interval_closure =
  c_settings :: TalkKillerSettings
  c_currentId :: string
  c_fallbacks :: "string list"
  c_startIndex :: int
  c_endIndex :: int

text \<open>
  The refs and React state the loop reads and writes, the window's live interval timers
  (each with its callback's closure), the lines written by \<^verbatim>\<open>console.log\<close> in
  \<^verbatim>\<open>triggerAutoSwitch\<close>, and whether the last run of the detection effect returned its
  cleanup function. The three audio-graph refs are modelled by whether they are non-null.
\<close>

record app =
  audioContextRef :: bool
  sourceRef :: bool
  analyserRef :: bool
  intervalRef :: "nat option"
  lastSwitchRef :: number
  speechSecondsRef :: number
  currentId :: string
  isPlaying :: bool
  analysisBlocked :: bool
  speechScore :: number
  speechLabel :: string
  fallbacks :: "string list"
  settings :: TalkKillerSettings
  timers :: "(nat \<times> interval_closure) list"
  nextTimerId :: nat
  switchLog :: "string list"
  cleanupPending :: bool

text \<open>
  The component as first rendered (lines 137-172): the refs hold \<^verbatim>\<open>null\<close> and 0, nothing
  plays; the first station's id, the fallback list and the settings come from
  \<^verbatim>\<open>stations.json\<close> and local storage and are parameters here.
\<close>

definition initialApp :: "string \<Rightarrow> string list \<Rightarrow> TalkKillerSettings \<Rightarrow> app" where
  "initialApp firstId storedFallbacks storedSettings =
     \<lparr>audioContextRef = False, sourceRef = False, analyserRef = False, intervalRef = None,
      lastSwitchRef = 0, speechSecondsRef = 0, currentId = firstId, isPlaying = False,
      analysisBlocked = False, speechScore = 0, speechLabel = ''Music'',
      fallbacks = storedFallbacks, settings = storedSettings, timers = [], nextTimerId = 1,
      switchLog = [], cleanupPending = False\<rparr>"

section \<open>Failover trigger\<close>

text \<open>
  \<^verbatim>\<open>triggerAutoSwitch\<close> (lines 580-587): nothing happens when the rotation gives a falsy
  value or the current id; otherwise the switch is logged and \<^verbatim>\<open>setCurrentId\<close> is called.
\<close>

definition triggerAutoSwitch :: "interval_closure \<Rightarrow> app \<Rightarrow> app" where
  "triggerAutoSwitch cl st =
     (let next = nextFallback (c_fallbacks cl) (c_currentId cl) in
      if \<not> truthy next \<or> next = Val (c_currentId cl) then st
      else (case next of
              Val n \<Rightarrow> st\<lparr>switchLog := switchLog st @ [n], currentId := n\<rparr>
            | _ \<Rightarrow> st))"

text \<open>\<^verbatim>\<open>if (intervalRef.current) { clearInterval(intervalRef.current); intervalRef.current = null; }\<close>\<close>

definition clearIntervalRef :: "app \<Rightarrow> app" where
  "clearIntervalRef st =
     (case intervalRef st of
        None \<Rightarrow> st
      | Some i \<Rightarrow>
          if i \<noteq> 0
          then st\<lparr>timers := filter (\<lambda>t. fst t \<noteq> i) (timers st), intervalRef := None\<rparr>
          else st)"

text \<open>What \<^verbatim>\<open>getByteFrequencyData\<close> does on one tick: it throws, or fills the byte array.\<close>

datatype read_result = ReadThrows | Data "8 word list"

text \<open>The branch one run of the interval callback takes.\<close>

datatype tick_path = NoAnalyser | ReadFailed | BelowThreshold | CoolingDown | Fired

text \<open>
  Scoring, classification and accumulation of one tick (lines 654-668). The literal
  \<^verbatim>\<open>0.2\<close> denotes the double nearest to 0.2, and \<^verbatim>\<open>+=\<close> adds it with rounding.
\<close>

definition sampleStep :: "interval_closure \<Rightarrow> 8 word list \<Rightarrow> app \<Rightarrow> app" where
  "sampleStep cl dataArray st =
     (let score = scoreOf dataArray (c_startIndex cl) (c_endIndex cl);
          st1 = st\<lparr>speechScore := score\<rparr>;
          isSpeech = (score \<ge> sensitivity (c_settings cl));
          st2 = st1\<lparr>speechLabel := (if isSpeech then ''Speech-ish'' else ''Music'')\<rparr>;
          step = round_double 0.2
      in if isSpeech then st2\<lparr>speechSecondsRef := js_add (speechSecondsRef st2) step\<rparr>
         else st2\<lparr>speechSecondsRef := 0\<rparr>)"

text \<open>The interval callback (lines 638-678); \<open>now\<close> is what \<^verbatim>\<open>Date.now()\<close> returns.\<close>

definition intervalCallback ::
    "interval_closure \<Rightarrow> read_result \<Rightarrow> number \<Rightarrow> app \<Rightarrow> tick_path \<times> app" where
  "intervalCallback cl rd now st =
     (if \<not> analyserRef st then (NoAnalyser, st)
      else case rd of
        ReadThrows \<Rightarrow> (ReadFailed, clearIntervalRef (st\<lparr>analysisBlocked := True\<rparr>))
      | Data dataArray \<Rightarrow>
          let st3 = sampleStep cl dataArray st in
          if speechSecondsRef st3 \<ge> speechSeconds (c_settings cl) then
            if now - lastSwitchRef st3 \<ge> cooldownSeconds (c_settings cl) * 1000 then
              (Fired, triggerAutoSwitch cl (st3\<lparr>lastSwitchRef := now, speechSecondsRef := 0\<rparr>))
            else (CoolingDown, st3)
          else (BelowThreshold, st3))"



section \<open>The detection effect\<close>

text \<open>
  \<^verbatim>\<open>setupAudioGraph\<close> (lines 599-614) creates what is still missing of the audio context,
  the media element source and the analyser. Any of its calls into the Web Audio API may
  throw; the fault says which one does, should it be reached. The result is whether setup
  completed, and the refs as they are left.
\<close>

datatype graph_fault =
  NoFault | NewContextThrows | CreateSourceThrows | CreateAnalyserThrows | ConnectThrows

definition setupAudioGraph :: "graph_fault \<Rightarrow> app \<Rightarrow> bool \<times> app" where
  "setupAudioGraph f st =
     (if \<not> audioContextRef st \<and> f = NewContextThrows then (False, st)
      else let st1 = st\<lparr>audioContextRef := True\<rparr> in
        if \<not> sourceRef st1 \<and> f = CreateSourceThrows then (False, st1)
        else let st2 = st1\<lparr>sourceRef := True\<rparr> in
          if \<not> analyserRef st2 then
            if f = CreateAnalyserThrows then (False, st2)
            else let st3 = st2\<lparr>analyserRef := True\<rparr> in
              if f = ConnectThrows then (False, st3) else (True, st3)
          else (True, st2))"

text \<open>The analyser is created with \<^verbatim>\<open>fftSize = 2048\<close>; it has half as many frequency bins.\<close>

definition fftSize :: nat where
  "fftSize = 2048"

definition frequencyBinCount :: nat where
  "frequencyBinCount = fftSize div 2"

text \<open>
  What the browser contributes to one run of the effect: whether the audio element is
  mounted, which call of the graph setup throws, and the context's sample rate.
\<close>

record effect_env =
  audioPresent :: bool
  fault :: graph_fault
  sampleRate :: number

text \<open>The body of the detection effect (lines 589-681).\<close>

definition detectionEffect :: "effect_env \<Rightarrow> app \<Rightarrow> app" where
  "detectionEffect env st =
     (if \<not> enabled (settings st) \<or> \<not> audioPresent env \<or> \<not> isPlaying st
      then (clearIntervalRef st)\<lparr>cleanupPending := False\<rparr>
      else let (ok, st1) = setupAudioGraph (fault env) st in
        if \<not> ok then st1\<lparr>analysisBlocked := True, cleanupPending := False\<rparr>
        else if \<not> analyserRef st1 \<or> \<not> audioContextRef st1 then st1\<lparr>cleanupPending := False\<rparr>
        else let len = frequencyBinCount;
                 cl = \<lparr>c_settings = settings st1, c_currentId = currentId st1,
                       c_fallbacks = fallbacks st1,
                       c_startIndex = startIndexOf (sampleRate env) len,
                       c_endIndex = endIndexOf (sampleRate env) len\<rparr>;
                 timer = nextTimerId st1
             in st1\<lparr>timers := (timer, cl) # timers st1, nextTimerId := timer + 1,
                     intervalRef := Some timer, cleanupPending := True\<rparr>)"

text \<open>The cleanup the effect returns (lines 682-687), run before the effect runs again.\<close>

definition effectCleanup :: "app \<Rightarrow> app" where
  "effectCleanup st =
     (if cleanupPending st then (clearIntervalRef st)\<lparr>cleanupPending := False\<rparr> else st)"

definition restartLoop :: "effect_env \<Rightarrow> app \<Rightarrow> app" where
  "restartLoop env st = detectionEffect env (effectCleanup st)"

text \<open>
  The effect's dependency list (line 688). After an event has changed the state, React
  runs the cleanup and the effect again when one of the dependencies differs.
\<close>

definition deps ::
    "app \<Rightarrow> bool \<times> number \<times> number \<times> number \<times> bool \<times> string \<times> string list" where
  "deps st = (enabled (settings st), sensitivity (settings st), speechSeconds (settings st),
              cooldownSeconds (settings st), isPlaying st, currentId st, fallbacks st)"

definition commit :: "effect_env \<Rightarrow> app \<Rightarrow> app \<Rightarrow> app" where
  "commit env old new = (if deps new = deps old then new else restartLoop env new)"

text \<open>
  The events that reach the loop: the audio element's play and pause events (lines
  321-322), the settings form, \<^verbatim>\<open>toggleFallback\<close> (lines 430-434), a click on a station
  (\<^verbatim>\<open>setCurrentId\<close>), and an interval timer firing. A timer that has been cleared does not
  fire. The effect that loads the new stream after a change of station (lines 267-314,
  where \<^verbatim>\<open>analysisBlocked\<close> is set back to false) is not part of this model.
\<close>

datatype event =
  Play | Pause | SetSettings TalkKillerSettings | ToggleFallback string
  | SelectStation string | IntervalFires nat read_result number

definition toggleFallback :: "string \<Rightarrow> string list \<Rightarrow> string list" where
  "toggleFallback stationId prev =
     (if stationId \<in> set prev then filter (\<lambda>i. i \<noteq> stationId) prev else prev @ [stationId])"

definition timerFires :: "nat \<Rightarrow> read_result \<Rightarrow> number \<Rightarrow> app \<Rightarrow> tick_path option \<times> app" where
  "timerFires timer rd now st =
     (case map_of (timers st) timer of
        None \<Rightarrow> (None, st)
      | Some cl \<Rightarrow> (let (p, st') = intervalCallback cl rd now st in (Some p, st')))"

fun handle :: "event \<Rightarrow> app \<Rightarrow> tick_path option \<times> app" where
  "handle Play st = (None, st\<lparr>isPlaying := True\<rparr>)"
| "handle Pause st = (None, st\<lparr>isPlaying := False\<rparr>)"
| "handle (SetSettings s) st = (None, st\<lparr>settings := s\<rparr>)"
| "handle (ToggleFallback i) st = (None, st\<lparr>fallbacks := toggleFallback i (fallbacks st)\<rparr>)"
| "handle (SelectStation i) st = (None, st\<lparr>currentId := i\<rparr>)"
| "handle (IntervalFires timer rd now) st = timerFires timer rd now st"

definition step :: "effect_env \<Rightarrow> event \<Rightarrow> app \<Rightarrow> tick_path option \<times> app" where
  "step env ev st = (let (p, st') = handle ev st in (p, commit env st st'))"

text \<open>The component is mounted: the effect runs for the first time.\<close>

definition mount :: "effect_env \<Rightarrow> string \<Rightarrow> string list \<Rightarrow> TalkKillerSettings \<Rightarrow> app" where
  "mount env firstId storedFallbacks storedSettings =
     detectionEffect env (initialApp firstId storedFallbacks storedSettings)"

text \<open>A session: events one after the other, with the branches the ticks among them took.\<close>

fun run :: "(effect_env \<times> event) list \<Rightarrow> app \<Rightarrow> tick_path list \<times> app" where
  "run [] st = ([], st)"
| "run ((env, ev) # rest) st =
     (let (p, st') = step env ev st;
          (ps, st'') = run rest st'
      in ((case p of None \<Rightarrow> ps | Some q \<Rightarrow> q # ps), st''))"

inductive reachable :: "app \<Rightarrow> bool" where
  reachable_mount: "reachable (mount env firstId storedFallbacks storedSettings)"
| reachable_step: "reachable st \<Longrightarrow> reachable (snd (step env ev st))"

section \<open>Invariant of the loop\<close>

text \<open>
  At most one interval timer is alive; it is the one \<^verbatim>\<open>intervalRef\<close> holds, the cleanup
  that will clear it is pending, and the analyser exists.
\<close>

definition timers_wf :: "app \<Rightarrow> bool" where
  "timers_wf st \<longleftrightarrow>
     length (timers st) \<le> 1 \<and> 0 < nextTimerId st \<and>
     (\<forall>(t, cl) \<in> set (timers st).
        intervalRef st = Some t \<and> t \<noteq> 0 \<and> cleanupPending st \<and> analyserRef st)"

text \<open>The callback of a live timer closes over the current render's values.\<close>

definition closures_fresh :: "app \<Rightarrow> bool" where
  "closures_fresh st \<longleftrightarrow>
     (\<forall>(t, cl) \<in> set (timers st).
        c_currentId cl = currentId st \<and> c_fallbacks cl = fallbacks st \<and>
        c_settings cl = settings st)"

section \<open>Example inputs\<close>

text \<open>
  Frames of 1024 bytes for an analyser running at 48 kHz, where the band is the index
  range from 12 up to 128: one with all its energy inside the band, one with all of it
  above. The example state is a player whose audio graph is set up and that is playing
  station a, with a and b as fallbacks and the default settings.
\<close>

definition speechFrame :: "8 word list" where
  "speechFrame = replicate 12 0 @ replicate 116 255 @ replicate 896 0"

definition musicFrame :: "8 word list" where
  "musicFrame = replicate 128 0 @ replicate 896 255"

definition exampleEnv :: effect_env where
  "exampleEnv = \<lparr>audioPresent = True, fault = NoFault, sampleRate = 48000\<rparr>"

definition exampleClosure :: interval_closure where
  "exampleClosure =
     \<lparr>c_settings = defaultSettings, c_currentId = ''a'', c_fallbacks = [''a'', ''b''],
      c_startIndex = startIndexOf 48000 frequencyBinCount,
      c_endIndex = endIndexOf 48000 frequencyBinCount\<rparr>"

definition exampleState :: app where
  "exampleState =
     (initialApp ''a'' [''a'', ''b''] defaultSettings)
       \<lparr>audioContextRef := True, sourceRef := True, analyserRef := True, isPlaying := True\<rparr>"

text \<open>
  A session with a single fallback, the station that is playing: the player is mounted on
  station a with a threshold of 2 s, playback starts, and ten speech ticks follow, one
  every 200 ms.
\<close>

definition speechTicks :: "nat \<Rightarrow> number list \<Rightarrow> (effect_env \<times> event) list" where
  "speechTicks timer nows = map (\<lambda>now. (exampleEnv, IntervalFires timer (Data speechFrame) now)) nows"

definition shortSettings :: TalkKillerSettings where
  "shortSettings = defaultSettings\<lparr>speechSeconds := 2\<rparr>"

definition soloSession :: "tick_path list \<times> app" where
  "soloSession =
     run ((exampleEnv, Play) #
          speechTicks 1 [200, 400, 600, 800, 1000, 1200, 1400, 1600, 1800, 2000])
       (mount exampleEnv ''a'' [''a''] shortSettings)"

text \<open>
  Two sessions on station a with fallbacks a and b and the default settings: playback
  starts and five speech ticks follow; playback starts and the first read of the analyser
  throws.
\<close>

definition fiveTickSession :: "tick_path list \<times> app" where
  "fiveTickSession =
     run ((exampleEnv, Play) # speechTicks 1 [200, 400, 600, 800, 1000])
       (mount exampleEnv ''a'' [''a'', ''b''] defaultSettings)"

definition blockedSession :: "tick_path list \<times> app" where
  "blockedSession =
     run [(exampleEnv, Play), (exampleEnv, IntervalFires 1 ReadThrows 1000)]
       (mount exampleEnv ''a'' [''a'', ''b''] defaultSettings)"

section \<open>Facts about double rounding\<close>

lemma bit_length_0: "bit_length 0 = 0"
  by (simp add: bit_length.simps)

lemma bit_length_1: "bit_length (Suc 0) = Suc 0"
  by (subst bit_length.simps) (simp add: bit_length_0)

lemma bit_length_numeral: "bit_length (numeral k) = Suc (bit_length (numeral k div 2))"
  by (subst bit_length.simps) simp

lemmas double_defs = round_double_def binade_def pow2_def round_half_even_def js_add_def
  bit_length_0 bit_length_numeral bit_length_1 Let_def

lemma step_value: "round_double 0.2 = 3602879701896397 / 18014398509481984"
  by (simp add: double_defs)

lemma step_value_fraction: "round_double (1 / 5) = 3602879701896397 / 18014398509481984"
  using step_value by simp

lemma accum_1: "js_add 0 (3602879701896397 / 18014398509481984) = 3602879701896397 / 18014398509481984"
  by (simp add: double_defs)

lemma accum_2: "js_add (3602879701896397 / 18014398509481984) (3602879701896397 / 18014398509481984) = 3602879701896397 / 9007199254740992"
  by (simp add: double_defs)

lemma accum_3: "js_add (3602879701896397 / 9007199254740992) (3602879701896397 / 18014398509481984) = 1351079888211149 / 2251799813685248"
  by (simp add: double_defs)

lemma accum_4: "js_add (1351079888211149 / 2251799813685248) (3602879701896397 / 18014398509481984) = 3602879701896397 / 4503599627370496"
  by (simp add: double_defs)

lemma accum_5: "js_add (3602879701896397 / 4503599627370496) (3602879701896397 / 18014398509481984) = 1"
  by (simp add: double_defs)

lemma accum_6: "js_add 1 (3602879701896397 / 18014398509481984) = 5404319552844595 / 4503599627370496"
  by (simp add: double_defs)

lemma accum_7: "js_add (5404319552844595 / 4503599627370496) (3602879701896397 / 18014398509481984) = 3152519739159347 / 2251799813685248"
  by (simp add: double_defs)

lemma accum_8: "js_add (3152519739159347 / 2251799813685248) (3602879701896397 / 18014398509481984) = 7205759403792793 / 4503599627370496"
  by (simp add: double_defs)

lemma accum_9: "js_add (7205759403792793 / 4503599627370496) (3602879701896397 / 18014398509481984) = 2026619832316723 / 1125899906842624"
  by (simp add: double_defs)

lemma accum_10: "js_add (2026619832316723 / 1125899906842624) (3602879701896397 / 18014398509481984) = 9007199254740991 / 4503599627370496"
  by (simp add: double_defs)

lemma accum_11: "js_add (9007199254740991 / 4503599627370496) (3602879701896397 / 18014398509481984) = 4953959590107545 / 2251799813685248"
  by (simp add: double_defs)

lemma accum_from_6: "js_add 6 (3602879701896397 / 18014398509481984) = 6980579422424269 / 1125899906842624"
  by (simp add: double_defs)

lemmas accum_chain = accum_1 accum_2 accum_3 accum_4 accum_5 accum_6 accum_7 accum_8 accum_9
  accum_10 accum_11 accum_from_6

section \<open>Properties of the speech scorer\<close>

lemma foldl_add_sum_list:
  "foldl (\<lambda>acc v. acc + f v) a xs = a + sum_list (map f xs)" for a :: real
  by (induction xs arbitrary: a) simp_all

lemma reduce_sum_sum_list: "reduce_sum xs = sum_list (map (\<lambda>v. real (unat v)) xs)"
  by (simp add: reduce_sum_def foldl_add_sum_list)

lemma reduce_sum_nonneg: "0 \<le> reduce_sum xs"
  unfolding reduce_sum_sum_list by (rule sum_list_nonneg) (auto simp del: of_nat_unat)

lemma sum_list_take_le:
  "(\<And>x. 0 \<le> f x) \<Longrightarrow> sum_list (map f (take n xs)) \<le> sum_list (map f xs)" for f :: "'a \<Rightarrow> real"
proof -
  assume nn: "\<And>x. 0 \<le> f x"
  have "sum_list (map f xs) = sum_list (map f (take n xs)) + sum_list (map f (drop n xs))"
    by (metis append_take_drop_id map_append sum_list_append)
  moreover have "0 \<le> sum_list (map f (drop n xs))" using nn by (auto intro!: sum_list_nonneg)
  ultimately show ?thesis by linarith
qed

lemma sum_list_drop_le:
  "(\<And>x. 0 \<le> f x) \<Longrightarrow> sum_list (map f (drop n xs)) \<le> sum_list (map f xs)" for f :: "'a \<Rightarrow> real"
proof -
  assume nn: "\<And>x. 0 \<le> f x"
  have "sum_list (map f xs) = sum_list (map f (take n xs)) + sum_list (map f (drop n xs))"
    by (metis append_take_drop_id map_append sum_list_append)
  moreover have "0 \<le> sum_list (map f (take n xs))" using nn by (auto intro!: sum_list_nonneg)
  ultimately show ?thesis by linarith
qed

lemma reduce_sum_slice_le: "reduce_sum (js_slice xs s e) \<le> reduce_sum xs"
proof -
  have "reduce_sum (take n (drop k xs)) \<le> reduce_sum xs" for n k
  proof -
    have "reduce_sum (take n (drop k xs)) \<le> reduce_sum (drop k xs)"
      unfolding reduce_sum_sum_list by (rule sum_list_take_le) (rule of_nat_0_le_iff)
    also have "\<dots> \<le> reduce_sum xs"
      unfolding reduce_sum_sum_list by (rule sum_list_drop_le) (rule of_nat_0_le_iff)
    finally show ?thesis .
  qed
  then show ?thesis by (simp add: js_slice_def Let_def)
qed

lemma scoreOf_bounds: "0 \<le> scoreOf d s e \<and> scoreOf d s e \<le> 1"
proof (cases "reduce_sum d = 0")
  case True
  then show ?thesis by (simp add: scoreOf_def)
next
  case False
  with reduce_sum_nonneg [of d] have pos: "0 < reduce_sum d" by simp
  have "0 \<le> reduce_sum (js_slice d s e)" by (rule reduce_sum_nonneg)
  moreover have "reduce_sum (js_slice d s e) \<le> reduce_sum d" by (rule reduce_sum_slice_le)
  ultimately show ?thesis using pos False by (simp add: scoreOf_def Let_def)
qed

lemma sum_list_take_drop_nth:
  "s + k \<le> length xs \<Longrightarrow> sum_list (map f (take k (drop s xs))) = (\<Sum>i = s..<s + k. f (xs ! i))" for f :: "'a \<Rightarrow> real"
proof -
  assume le: "s + k \<le> length xs"
  have "take k (drop s xs) = map ((!) xs) [s..<s + k]"
  proof (rule nth_equalityI)
    show "length (take k (drop s xs)) = length (map ((!) xs) [s..<s + k])" using le by simp
  next
    fix i assume "i < length (take k (drop s xs))"
    then have "i < k" by simp
    then show "take k (drop s xs) ! i = map ((!) xs) [s..<s + k] ! i" using le by simp
  qed
  then have "sum_list (map f (take k (drop s xs))) = sum_list (map (\<lambda>i. f (xs ! i)) [s..<s + k])"
    by (simp add: comp_def)
  also have "\<dots> = (\<Sum>i = s..<s + k. f (xs ! i))"
    by (simp add: interv_sum_list_conv_sum_set_nat)
  finally show ?thesis .
qed

lemma sum_int_range_nat:
  "0 \<le> a \<Longrightarrow> (\<Sum>i = a..<b. g (nat i)) = (\<Sum>i = nat a..<nat b. g i)" for g :: "nat \<Rightarrow> real"
  by (rule sum.reindex_bij_witness [where i = "int" and j = "nat"]) auto

lemma slice_sum:
  assumes "0 \<le> s" "e \<le> int (length xs) - 1" "xs \<noteq> [] \<Longrightarrow> 0 \<le> e"
  shows "reduce_sum (js_slice xs s e) = (\<Sum>i = s..<e. real (unat (xs ! nat i)))"
proof (cases "s < e")
  case False
  have "js_slice xs s e = []"
  proof (cases "xs = []")
    case True
    then show ?thesis by (simp add: js_slice_def Let_def)
  next
    case nonempty: False
    with assms(3) have "0 \<le> e" by simp
    with False assms(1) show ?thesis by (simp add: js_slice_def Let_def max_def min_def)
  qed
  then show ?thesis using False by (simp add: reduce_sum_def)
next
  case True
  with assms(1,2) have e0: "0 \<le> e" and le: "nat s + nat (e - s) \<le> length xs" by linarith+
  have sl: "js_slice xs s e = take (nat (e - s)) (drop (nat s) xs)"
    using assms True e0 by (simp add: js_slice_def Let_def max_def min_def)
  have "reduce_sum (js_slice xs s e) = (\<Sum>i = nat s..<nat s + nat (e - s). real (unat (xs ! i)))"
    unfolding sl reduce_sum_sum_list using le by (rule sum_list_take_drop_nth)
  also have "nat s + nat (e - s) = nat e" using assms True by linarith
  finally show ?thesis using sum_int_range_nat [OF assms(1), of "\<lambda>i. real (unat (xs ! i))" e] by simp
qed

lemma startIndexOf_nonneg: "0 < r \<Longrightarrow> 0 \<le> startIndexOf r n"
  by (simp add: startIndexOf_def Let_def)

lemma endIndexOf_le: "endIndexOf r n \<le> int n - 1"
  by (simp add: endIndexOf_def Let_def)

lemma endIndexOf_nonneg: "0 < r \<Longrightarrow> 0 < n \<Longrightarrow> 0 \<le> endIndexOf r n"
  by (simp add: endIndexOf_def Let_def)


text \<open>
  Claim C4. For a positive sample rate the score the code computes is the score of the
  specification: the magnitudes at the indices from \<open>startIndex\<close> up to but excluding
  \<open>endIndex\<close>, over the magnitudes of all bins, with the two bounds as the specification
  gives them, and 0 when the total is 0.
\<close>

theorem score_matches_spec:
  "0 < sampleRateHz \<Longrightarrow>
     score snapshot sampleRateHz = spec_score snapshot sampleRateHz \<and>
     ((\<Sum>i = 0..<length snapshot. real (unat (snapshot ! i))) = 0 \<longrightarrow>
        score snapshot sampleRateHz = 0)"
  unfolding score_def scoreOf_def spec_score_def Let_def
  apply (subst slice_sum [OF startIndexOf_nonneg endIndexOf_le endIndexOf_nonneg])
     apply simp_all
  apply (simp_all add: reduce_sum_sum_list sum_list_sum_nth startIndexOf_def endIndexOf_def Let_def)
  done

theorem score_matches_spec_witness:
  "0 < (48000::real) \<and>
   score [1, 2, 3, 4, 5, 6, 7, 8, 9, 10, 11, 12, 13, 14, 15, 16] 48000 = 3 / 136 \<and>
   spec_score [1, 2, 3, 4, 5, 6, 7, 8, 9, 10, 11, 12, 13, 14, 15, 16] 48000 = 3 / 136 \<and>
   score [0, 0, 0, 0] 48000 = 0"
proof -
  have v: "score [1, 2, 3, 4, 5, 6, 7, 8, 9, 10, 11, 12, 13, 14, 15, 16] 48000 = 3 / 136"
    by (simp add: score_def scoreOf_def startIndexOf_def endIndexOf_def js_slice_def
        reduce_sum_def)
  show ?thesis
    using score_matches_spec [of 48000 "[1, 2, 3, 4, 5, 6, 7, 8, 9, 10, 11, 12, 13, 14, 15, 16]"]
      score_matches_spec [of 48000 "[0, 0, 0, 0]"] v
    by (simp add: upt_rec)
qed

text \<open>
  Claim C8. Whatever bytes the snapshot holds, and whatever the band bounds or the sample
  rate they are computed from, the score lies between 0 and 1.
\<close>

theorem score_in_unit_interval:
  "0 \<le> scoreOf dataArray startIndex endIndex \<and> scoreOf dataArray startIndex endIndex \<le> 1 \<and>
   0 \<le> score dataArray sampleRateHz \<and> score dataArray sampleRateHz \<le> 1"
  using scoreOf_bounds by (simp add: score_def)

section \<open>Properties of the fallback rotation\<close>

lemma indexOfFrom_absent: "x \<notin> set xs \<Longrightarrow> indexOfFrom xs x k = -1"
  by (induction xs arbitrary: k) auto

lemma indexOfFrom_present:
  "x \<in> set xs \<Longrightarrow>
     \<exists>i<length xs. xs ! i = x \<and> (\<forall>j<i. xs ! j \<noteq> x) \<and> indexOfFrom xs x k = k + int i"
proof (induction xs arbitrary: k)
  case Nil
  then show ?case by simp
next
  case (Cons y ys)
  show ?case
  proof (cases "y = x")
    case True
    then show ?thesis by (intro exI [of _ 0]) simp
  next
    case False
    with Cons.prems have "x \<in> set ys" by simp
    from Cons.IH [OF this, of "k + 1"] obtain i where
      i: "i < length ys" "ys ! i = x" "\<forall>j<i. ys ! j \<noteq> x" "indexOfFrom ys x (k + 1) = k + 1 + int i"
      by blast
    have "\<forall>j<Suc i. (y # ys) ! j \<noteq> x"
      using False i(3) by (auto simp: nth_Cons split: nat.splits)
    with i False show ?thesis by (intro exI [of _ "Suc i"]) simp
  qed
qed

lemma indexOf_present:
  assumes "x \<in> set xs"
  shows "0 \<le> indexOf xs x" "nat (indexOf xs x) < length xs" "xs ! nat (indexOf xs x) = x"
    "\<forall>j<nat (indexOf xs x). xs ! j \<noteq> x"
  using indexOfFrom_present [OF assms, of 0] by (auto simp: indexOf_def)

lemma js_rem_nonneg: "0 \<le> a \<Longrightarrow> 0 < b \<Longrightarrow> js_rem a b = a mod b"
  by (simp add: js_rem_def sgn_if)

lemma nextFallback_present:
  assumes "cur \<in> set fbs"
  shows "nextFallback fbs cur = Val (fbs ! ((nat (indexOf fbs cur) + 1) mod length fbs))"
proof -
  note p = indexOf_present [OF assms]
  let ?i = "indexOf fbs cur"
  let ?n = "length fbs"
  from assms have ne: "0 < ?n" by (cases fbs) auto
  have r: "js_rem (?i + 1) (int ?n) = (?i + 1) mod int ?n"
    using p(1) ne by (simp add: js_rem_nonneg)
  have m: "nat ((?i + 1) mod int ?n) = (nat ?i + 1) mod ?n"
    using p(1) by (simp add: nat_mod_distrib nat_add_distrib)
  have lt: "(?i + 1) mod int ?n < int ?n" "0 \<le> (?i + 1) mod int ?n" using ne by simp_all
  from p(1) have "?i \<noteq> -1" by simp
  then show ?thesis
    using ne r m lt by (simp add: nextFallback_def js_index_def Let_def)
qed

lemma nextFallback_only_current:
  assumes "set fbs \<subseteq> {cur}"
  shows "nextFallback fbs cur = Null \<or> nextFallback fbs cur = Val cur"
proof (cases "fbs = []")
  case True
  then show ?thesis by (simp add: nextFallback_def)
next
  case False
  with assms have "cur \<in> set fbs" by (cases fbs) auto
  then have "nextFallback fbs cur = Val (fbs ! ((nat (indexOf fbs cur) + 1) mod length fbs))"
    by (rule nextFallback_present)
  moreover have "fbs ! ((nat (indexOf fbs cur) + 1) mod length fbs) \<in> set fbs"
    using False by simp
  ultimately show ?thesis using assms by auto
qed

text \<open>
  Claim C3. \<^verbatim>\<open>nextFallback\<close> returns \<^verbatim>\<open>null\<close> for an empty fallback list, the first element
  when the current id is not in the list, and otherwise the element that follows the first
  occurrence of the current id, wrapping around at the end: \<^verbatim>\<open>indexOf\<close> is the least
  position holding the id, and the result sits at that position plus one modulo the
  length. For the list a, b, c it maps b to c, c to a and the absent z to a.
\<close>

theorem nextFallback_rotation:
  "(fbs = [] \<longrightarrow> nextFallback fbs cur = Null) \<and>
   (fbs \<noteq> [] \<and> cur \<notin> set fbs \<longrightarrow>
      indexOf fbs cur = -1 \<and> nextFallback fbs cur = Val (hd fbs)) \<and>
   (cur \<in> set fbs \<longrightarrow>
      0 \<le> indexOf fbs cur \<and>
      nat (indexOf fbs cur) < length fbs \<and>
      fbs ! nat (indexOf fbs cur) = cur \<and>
      (\<forall>j<nat (indexOf fbs cur). fbs ! j \<noteq> cur) \<and>
      nextFallback fbs cur =
        Val (fbs ! ((nat (indexOf fbs cur) + 1) mod length fbs))) \<and>
   nextFallback [''a'', ''b'', ''c''] ''b'' = Val ''c'' \<and>
   nextFallback [''a'', ''b'', ''c''] ''c'' = Val ''a'' \<and>
   nextFallback [''a'', ''b'', ''c''] ''z'' = Val ''a''"
proof (intro conjI impI)
  assume "fbs = []"
  then show "nextFallback fbs cur = Null" by (simp add: nextFallback_def)
next
  assume a: "fbs \<noteq> [] \<and> cur \<notin> set fbs"
  then show "indexOf fbs cur = -1" by (simp add: indexOf_def indexOfFrom_absent)
  with a show "nextFallback fbs cur = Val (hd fbs)"
    by (simp add: nextFallback_def js_index_def hd_conv_nth)
next
  assume a: "cur \<in> set fbs"
  note p = indexOf_present [OF a]
  show "0 \<le> indexOf fbs cur" by (rule p)
  show "nat (indexOf fbs cur) < length fbs" by (rule p)
  show "fbs ! nat (indexOf fbs cur) = cur" by (rule p)
  show "\<forall>j<nat (indexOf fbs cur). fbs ! j \<noteq> cur" by (rule p)
  show "nextFallback fbs cur =
          Val (fbs ! ((nat (indexOf fbs cur) + 1) mod length fbs))"
    using a by (rule nextFallback_present)
qed (simp_all add: nextFallback_def indexOf_def js_index_def js_rem_def)

theorem nextFallback_rotation_witness:
  "[''a''] \<noteq> [] \<and> ''z'' \<notin> set [''a''] \<and> nextFallback [''a''] ''z'' = Val ''a'' \<and>
   ''b'' \<in> set [''a'', ''b''] \<and> indexOf [''a'', ''b''] ''b'' = 1 \<and>
   nextFallback [''a'', ''b''] ''b'' = Val ''a'' \<and>
   nextFallback [] ''a'' = Null"
  using nextFallback_rotation [of "[''a'']" "''z''"]
    nextFallback_rotation [of "[''a'', ''b'']" "''b''"]
    nextFallback_rotation [of "[]" "''a''"]
  by (simp add: indexOf_def)


section \<open>Facts about the example inputs\<close>

lemma band_48000: "startIndexOf 48000 frequencyBinCount = 12" "endIndexOf 48000 frequencyBinCount = 128"
  by (simp_all add: startIndexOf_def endIndexOf_def frequencyBinCount_def fftSize_def)

lemma reduce_sum_append: "reduce_sum (xs @ ys) = reduce_sum xs + reduce_sum ys"
  by (simp add: reduce_sum_sum_list)

lemma reduce_sum_replicate: "reduce_sum (replicate n v) = real n * real (unat v)"
  by (simp add: reduce_sum_sum_list sum_list_replicate del: of_nat_unat)

lemma score_speechFrame: "scoreOf speechFrame 12 128 = 1"
  by (simp add: scoreOf_def speechFrame_def js_slice_def reduce_sum_append reduce_sum_replicate)

lemma score_musicFrame: "scoreOf musicFrame 12 128 = 0"
  by (simp add: scoreOf_def musicFrame_def js_slice_def reduce_sum_append reduce_sum_replicate)

section \<open>Properties of one tick\<close>

lemma sampleStep_speechSeconds:
  "speechSecondsRef (sampleStep cl d st) =
     (if scoreOf d (c_startIndex cl) (c_endIndex cl) \<ge> sensitivity (c_settings cl)
      then js_add (speechSecondsRef st) (round_double 0.2) else 0)"
  by (simp add: sampleStep_def Let_def)


lemma sampleStep_keeps:
  "lastSwitchRef (sampleStep cl d st) = lastSwitchRef st"
  "analyserRef (sampleStep cl d st) = analyserRef st"
  "currentId (sampleStep cl d st) = currentId st"
  "switchLog (sampleStep cl d st) = switchLog st"
  "timers (sampleStep cl d st) = timers st"
  "intervalRef (sampleStep cl d st) = intervalRef st"
  "analysisBlocked (sampleStep cl d st) = analysisBlocked st"
  "isPlaying (sampleStep cl d st) = isPlaying st"
  "fallbacks (sampleStep cl d st) = fallbacks st"
  "settings (sampleStep cl d st) = settings st"
  "nextTimerId (sampleStep cl d st) = nextTimerId st"
  "cleanupPending (sampleStep cl d st) = cleanupPending st"
  "audioContextRef (sampleStep cl d st) = audioContextRef st"
  "sourceRef (sampleStep cl d st) = sourceRef st"
  by (simp_all add: sampleStep_def Let_def)

lemma triggerAutoSwitch_keeps:
  "lastSwitchRef (triggerAutoSwitch cl st) = lastSwitchRef st"
  "speechSecondsRef (triggerAutoSwitch cl st) = speechSecondsRef st"
  "analyserRef (triggerAutoSwitch cl st) = analyserRef st"
  "timers (triggerAutoSwitch cl st) = timers st"
  "intervalRef (triggerAutoSwitch cl st) = intervalRef st"
  "analysisBlocked (triggerAutoSwitch cl st) = analysisBlocked st"
  "isPlaying (triggerAutoSwitch cl st) = isPlaying st"
  "fallbacks (triggerAutoSwitch cl st) = fallbacks st"
  "settings (triggerAutoSwitch cl st) = settings st"
  "nextTimerId (triggerAutoSwitch cl st) = nextTimerId st"
  "cleanupPending (triggerAutoSwitch cl st) = cleanupPending st"
  "audioContextRef (triggerAutoSwitch cl st) = audioContextRef st"
  "sourceRef (triggerAutoSwitch cl st) = sourceRef st"
  "speechLabel (triggerAutoSwitch cl st) = speechLabel st"
  "speechScore (triggerAutoSwitch cl st) = speechScore st"
  by (simp_all add: triggerAutoSwitch_def Let_def split: js_value.splits)

lemma intervalCallback_Data:
  "analyserRef st \<Longrightarrow>
   intervalCallback cl (Data d) now st =
     (if speechSecondsRef (sampleStep cl d st) \<ge> speechSeconds (c_settings cl) then
        if now - lastSwitchRef st \<ge> cooldownSeconds (c_settings cl) * 1000 then
          (Fired, triggerAutoSwitch cl
                    ((sampleStep cl d st)\<lparr>lastSwitchRef := now, speechSecondsRef := 0\<rparr>))
        else (CoolingDown, sampleStep cl d st)
      else (BelowThreshold, sampleStep cl d st))"
  by (simp add: intervalCallback_def Let_def sampleStep_keeps)

text \<open>
  Claim C1. On a tick that reads a frame, the trigger fires exactly when the seconds
  accumulated by that tick have reached \<open>speechSeconds\<close> and at least \<open>cooldownSeconds\<close>
  times 1000 ms have passed since the last firing. When it fires, the time of the last
  switch becomes \<open>now\<close> and the accumulated seconds become 0 before the fallback rotation
  is consulted; when it does not, nothing beyond the sample is recorded and no station is
  requested. With a cooldown of 12 s and the last firing at \<open>t0\<close>, a tick that reaches the
  threshold 5000 ms later does not fire and one 13000 ms later does.
\<close>

theorem failover_trigger:
  assumes "analyserRef st"
  shows
    "(fst (intervalCallback cl (Data d) now st) = Fired \<longleftrightarrow>
        speechSecondsRef (sampleStep cl d st) \<ge> speechSeconds (c_settings cl) \<and>
        now - lastSwitchRef st \<ge> cooldownSeconds (c_settings cl) * 1000) \<and>
     (fst (intervalCallback cl (Data d) now st) = Fired \<longrightarrow>
        snd (intervalCallback cl (Data d) now st) =
          triggerAutoSwitch cl ((sampleStep cl d st)\<lparr>lastSwitchRef := now, speechSecondsRef := 0\<rparr>) \<and>
        lastSwitchRef (snd (intervalCallback cl (Data d) now st)) = now \<and>
        speechSecondsRef (snd (intervalCallback cl (Data d) now st)) = 0) \<and>
     (fst (intervalCallback cl (Data d) now st) \<noteq> Fired \<longrightarrow>
        snd (intervalCallback cl (Data d) now st) = sampleStep cl d st \<and>
        lastSwitchRef (snd (intervalCallback cl (Data d) now st)) = lastSwitchRef st \<and>
        currentId (snd (intervalCallback cl (Data d) now st)) = currentId st \<and>
        switchLog (snd (intervalCallback cl (Data d) now st)) = switchLog st) \<and>
     (cooldownSeconds (c_settings cl) = 12 \<and> lastSwitchRef st = t0 \<and>
      speechSecondsRef (sampleStep cl d st) \<ge> speechSeconds (c_settings cl) \<longrightarrow>
        fst (intervalCallback cl (Data d) (t0 + 5000) st) = CoolingDown \<and>
        fst (intervalCallback cl (Data d) (t0 + 13000) st) = Fired)"
  using assms by (simp add: intervalCallback_Data triggerAutoSwitch_keeps sampleStep_keeps)


theorem failover_trigger_witness:
  "analyserRef (exampleState\<lparr>speechSecondsRef := 6\<rparr>) \<and>
   speechSecondsRef (sampleStep exampleClosure speechFrame (exampleState\<lparr>speechSecondsRef := 6\<rparr>)) =
     6980579422424269 / 1125899906842624 \<and>
   fst (intervalCallback exampleClosure (Data speechFrame) 5000 (exampleState\<lparr>speechSecondsRef := 6\<rparr>)) = CoolingDown \<and>
   lastSwitchRef (snd (intervalCallback exampleClosure (Data speechFrame) 5000 (exampleState\<lparr>speechSecondsRef := 6\<rparr>))) = 0 \<and>
   currentId (snd (intervalCallback exampleClosure (Data speechFrame) 5000 (exampleState\<lparr>speechSecondsRef := 6\<rparr>))) = ''a'' \<and>
   fst (intervalCallback exampleClosure (Data speechFrame) 13000 (exampleState\<lparr>speechSecondsRef := 6\<rparr>)) = Fired \<and>
   lastSwitchRef (snd (intervalCallback exampleClosure (Data speechFrame) 13000 (exampleState\<lparr>speechSecondsRef := 6\<rparr>))) = 13000 \<and>
   speechSecondsRef (snd (intervalCallback exampleClosure (Data speechFrame) 13000 (exampleState\<lparr>speechSecondsRef := 6\<rparr>))) = 0 \<and>
   currentId (snd (intervalCallback exampleClosure (Data speechFrame) 13000 (exampleState\<lparr>speechSecondsRef := 6\<rparr>))) = ''b''"
  using failover_trigger [of "exampleState\<lparr>speechSecondsRef := 6\<rparr>" exampleClosure speechFrame 13000 0]
    failover_trigger [of "exampleState\<lparr>speechSecondsRef := 6\<rparr>" exampleClosure speechFrame 5000 0]
  by (simp add: sampleStep_def triggerAutoSwitch_def nextFallback_def indexOf_def js_index_def
      js_rem_def exampleClosure_def exampleState_def initialApp_def defaultSettings_def
      band_48000 score_speechFrame step_value_fraction accum_chain)












lemma nextFallback_no_switch:
  "nextFallback (c_fallbacks cl) (c_currentId cl) = Null \<or>
   nextFallback (c_fallbacks cl) (c_currentId cl) = Val (c_currentId cl) \<Longrightarrow>
   triggerAutoSwitch cl st = st"
  by (auto simp: triggerAutoSwitch_def Let_def)

text \<open>
  Claim C9. When a tick meets the trigger condition but the rotation gives \<^verbatim>\<open>null\<close> or
  the current station, the tick still records \<open>now\<close> as the time of the last switch and
  clears the accumulated seconds, while the current station stays as it is and no switch
  is logged; as long as that time stands and the cooldown has not passed again, no tick
  fires, whatever it has accumulated.
\<close>

theorem trigger_without_switch_starts_cooldown:
  assumes "analyserRef st"
    and "speechSecondsRef (sampleStep cl d st) \<ge> speechSeconds (c_settings cl)"
    and "now - lastSwitchRef st \<ge> cooldownSeconds (c_settings cl) * 1000"
    and "nextFallback (c_fallbacks cl) (c_currentId cl) = Null \<or>
         nextFallback (c_fallbacks cl) (c_currentId cl) = Val (c_currentId cl)"
  shows "fst (intervalCallback cl (Data d) now st) = Fired \<and>
         lastSwitchRef (snd (intervalCallback cl (Data d) now st)) = now \<and>
         speechSecondsRef (snd (intervalCallback cl (Data d) now st)) = 0 \<and>
         currentId (snd (intervalCallback cl (Data d) now st)) = currentId st \<and>
         switchLog (snd (intervalCallback cl (Data d) now st)) = switchLog st \<and>
         (\<forall>st' d' now'.
            analyserRef st' \<and>
            lastSwitchRef st' = lastSwitchRef (snd (intervalCallback cl (Data d) now st)) \<and>
            now' - now < cooldownSeconds (c_settings cl) * 1000 \<longrightarrow>
              fst (intervalCallback cl (Data d') now' st') \<noteq> Fired)"
  using assms
  by (simp add: intervalCallback_Data nextFallback_no_switch sampleStep_keeps)

theorem trigger_without_switch_starts_cooldown_witness:
  "analyserRef (exampleState\<lparr>speechSecondsRef := 6\<rparr>) \<and>
   nextFallback (c_fallbacks (exampleClosure\<lparr>c_fallbacks := [''a'']\<rparr>))
     (c_currentId (exampleClosure\<lparr>c_fallbacks := [''a'']\<rparr>)) = Val ''a'' \<and>
   nextFallback (c_fallbacks (exampleClosure\<lparr>c_fallbacks := []\<rparr>))
     (c_currentId (exampleClosure\<lparr>c_fallbacks := []\<rparr>)) = Null \<and>
   fst (intervalCallback (exampleClosure\<lparr>c_fallbacks := [''a'']\<rparr>) (Data speechFrame) 13000
         (exampleState\<lparr>speechSecondsRef := 6\<rparr>)) = Fired \<and>
   lastSwitchRef (snd (intervalCallback (exampleClosure\<lparr>c_fallbacks := [''a'']\<rparr>) (Data speechFrame) 13000
         (exampleState\<lparr>speechSecondsRef := 6\<rparr>))) = 13000 \<and>
   speechSecondsRef (snd (intervalCallback (exampleClosure\<lparr>c_fallbacks := [''a'']\<rparr>) (Data speechFrame) 13000
         (exampleState\<lparr>speechSecondsRef := 6\<rparr>))) = 0 \<and>
   currentId (snd (intervalCallback (exampleClosure\<lparr>c_fallbacks := [''a'']\<rparr>) (Data speechFrame) 13000
         (exampleState\<lparr>speechSecondsRef := 6\<rparr>))) = ''a'' \<and>
   fst (intervalCallback (exampleClosure\<lparr>c_fallbacks := [''a'']\<rparr>) (Data speechFrame) 24000
         ((snd (intervalCallback (exampleClosure\<lparr>c_fallbacks := [''a'']\<rparr>) (Data speechFrame) 13000
            (exampleState\<lparr>speechSecondsRef := 6\<rparr>)))\<lparr>speechSecondsRef := 6\<rparr>)) = CoolingDown \<and>
   fst (intervalCallback (exampleClosure\<lparr>c_fallbacks := []\<rparr>) (Data speechFrame) 13000
         (exampleState\<lparr>speechSecondsRef := 6\<rparr>)) = Fired \<and>
   lastSwitchRef (snd (intervalCallback (exampleClosure\<lparr>c_fallbacks := []\<rparr>) (Data speechFrame) 13000
         (exampleState\<lparr>speechSecondsRef := 6\<rparr>))) = 13000"
  using trigger_without_switch_starts_cooldown
      [of "exampleState\<lparr>speechSecondsRef := 6\<rparr>" "exampleClosure\<lparr>c_fallbacks := [''a'']\<rparr>"
          speechFrame 13000]
    trigger_without_switch_starts_cooldown
      [of "exampleState\<lparr>speechSecondsRef := 6\<rparr>" "exampleClosure\<lparr>c_fallbacks := []\<rparr>"
          speechFrame 13000]
  by (simp add: intervalCallback_Data triggerAutoSwitch_def sampleStep_keeps
      sampleStep_speechSeconds nextFallback_def indexOf_def js_index_def js_rem_def
      exampleClosure_def exampleState_def initialApp_def defaultSettings_def band_48000
      score_speechFrame step_value_fraction accum_chain)

section \<open>The loop across events\<close>

lemma clearIntervalRef_keeps:
  "currentId (clearIntervalRef st) = currentId st"
  "fallbacks (clearIntervalRef st) = fallbacks st"
  "settings (clearIntervalRef st) = settings st"
  "isPlaying (clearIntervalRef st) = isPlaying st"
  "switchLog (clearIntervalRef st) = switchLog st"
  "speechSecondsRef (clearIntervalRef st) = speechSecondsRef st"
  "lastSwitchRef (clearIntervalRef st) = lastSwitchRef st"
  "analysisBlocked (clearIntervalRef st) = analysisBlocked st"
  "analyserRef (clearIntervalRef st) = analyserRef st"
  "audioContextRef (clearIntervalRef st) = audioContextRef st"
  "sourceRef (clearIntervalRef st) = sourceRef st"
  "nextTimerId (clearIntervalRef st) = nextTimerId st"
  "cleanupPending (clearIntervalRef st) = cleanupPending st"
  by (simp_all add: clearIntervalRef_def split: option.splits)

lemma clearIntervalRef_timers:
  assumes "timers_wf st"
  shows "timers (clearIntervalRef st) = []"
proof (cases "timers st")
  case Nil
  then show ?thesis by (simp add: clearIntervalRef_def split: option.splits)
next
  case (Cons a rest)
  obtain t cl where a: "a = (t, cl)" by (cases a)
  from assms Cons have "rest = []" by (simp add: timers_wf_def)
  moreover from assms Cons a have "intervalRef st = Some t" "t \<noteq> 0"
    by (simp_all add: timers_wf_def)
  ultimately show ?thesis using Cons a by (simp add: clearIntervalRef_def)
qed

lemma setupAudioGraph_keeps:
  "currentId (snd (setupAudioGraph f st)) = currentId st"
  "fallbacks (snd (setupAudioGraph f st)) = fallbacks st"
  "settings (snd (setupAudioGraph f st)) = settings st"
  "isPlaying (snd (setupAudioGraph f st)) = isPlaying st"
  "switchLog (snd (setupAudioGraph f st)) = switchLog st"
  "speechSecondsRef (snd (setupAudioGraph f st)) = speechSecondsRef st"
  "lastSwitchRef (snd (setupAudioGraph f st)) = lastSwitchRef st"
  "analysisBlocked (snd (setupAudioGraph f st)) = analysisBlocked st"
  "timers (snd (setupAudioGraph f st)) = timers st"
  "intervalRef (snd (setupAudioGraph f st)) = intervalRef st"
  "nextTimerId (snd (setupAudioGraph f st)) = nextTimerId st"
  "cleanupPending (snd (setupAudioGraph f st)) = cleanupPending st"
  by (simp_all add: setupAudioGraph_def Let_def)

lemma effectCleanup_keeps:
  "currentId (effectCleanup st) = currentId st"
  "fallbacks (effectCleanup st) = fallbacks st"
  "settings (effectCleanup st) = settings st"
  "isPlaying (effectCleanup st) = isPlaying st"
  "switchLog (effectCleanup st) = switchLog st"
  "speechSecondsRef (effectCleanup st) = speechSecondsRef st"
  "lastSwitchRef (effectCleanup st) = lastSwitchRef st"
  "analysisBlocked (effectCleanup st) = analysisBlocked st"
  "nextTimerId (effectCleanup st) = nextTimerId st"
  by (simp_all add: effectCleanup_def clearIntervalRef_keeps)

lemma detectionEffect_keeps:
  "currentId (detectionEffect env st) = currentId st"
  "fallbacks (detectionEffect env st) = fallbacks st"
  "settings (detectionEffect env st) = settings st"
  "isPlaying (detectionEffect env st) = isPlaying st"
  "switchLog (detectionEffect env st) = switchLog st"
  "speechSecondsRef (detectionEffect env st) = speechSecondsRef st"
  "lastSwitchRef (detectionEffect env st) = lastSwitchRef st"
  by (simp_all add: detectionEffect_def Let_def clearIntervalRef_keeps setupAudioGraph_keeps
      case_prod_beta)

lemma restartLoop_keeps:
  "currentId (restartLoop env st) = currentId st"
  "fallbacks (restartLoop env st) = fallbacks st"
  "settings (restartLoop env st) = settings st"
  "isPlaying (restartLoop env st) = isPlaying st"
  "switchLog (restartLoop env st) = switchLog st"
  "speechSecondsRef (restartLoop env st) = speechSecondsRef st"
  "lastSwitchRef (restartLoop env st) = lastSwitchRef st"
  by (simp_all add: restartLoop_def detectionEffect_keeps effectCleanup_keeps)

lemma commit_keeps:
  "currentId (commit env old new) = currentId new"
  "fallbacks (commit env old new) = fallbacks new"
  "settings (commit env old new) = settings new"
  "isPlaying (commit env old new) = isPlaying new"
  "switchLog (commit env old new) = switchLog new"
  "speechSecondsRef (commit env old new) = speechSecondsRef new"
  "lastSwitchRef (commit env old new) = lastSwitchRef new"
  by (simp_all add: commit_def restartLoop_keeps)

lemma effectCleanup_timers:
  "timers_wf st \<Longrightarrow> timers (effectCleanup st) = []"
  by (cases "timers st")
     (auto simp: effectCleanup_def clearIntervalRef_timers timers_wf_def)

lemma detectionEffect_inv:
  assumes "timers st = []" "0 < nextTimerId st"
  shows "timers_wf (detectionEffect env st) \<and> closures_fresh (detectionEffect env st)"
proof -
  have a: "timers (clearIntervalRef st) = []"
    using assms(1) by (simp add: clearIntervalRef_def split: option.splits)
  show ?thesis
    using assms a
    by (auto simp: detectionEffect_def Let_def timers_wf_def closures_fresh_def case_prod_beta
        setupAudioGraph_keeps clearIntervalRef_keeps)
qed

lemma restartLoop_inv:
  "timers_wf st \<Longrightarrow> timers_wf (restartLoop env st) \<and> closures_fresh (restartLoop env st)"
  unfolding restartLoop_def
  by (rule detectionEffect_inv) (simp_all add: effectCleanup_timers effectCleanup_keeps timers_wf_def)


lemma intervalCallback_keeps:
  "fallbacks (snd (intervalCallback cl rd now st)) = fallbacks st"
  "settings (snd (intervalCallback cl rd now st)) = settings st"
  "isPlaying (snd (intervalCallback cl rd now st)) = isPlaying st"
  "nextTimerId (snd (intervalCallback cl rd now st)) = nextTimerId st"
  "analyserRef (snd (intervalCallback cl rd now st)) = analyserRef st"
  "cleanupPending (snd (intervalCallback cl rd now st)) = cleanupPending st"
  by (simp_all add: intervalCallback_def Let_def sampleStep_keeps triggerAutoSwitch_keeps
      clearIntervalRef_keeps split: read_result.splits)

lemma intervalCallback_timers:
  "timers_wf st \<Longrightarrow>
     timers (snd (intervalCallback cl rd now st)) = [] \<or>
     timers (snd (intervalCallback cl rd now st)) = timers st \<and>
     intervalRef (snd (intervalCallback cl rd now st)) = intervalRef st"
proof (cases rd)
  case ReadThrows
  assume "timers_wf st"
  then have "timers_wf (st\<lparr>analysisBlocked := True\<rparr>)" by (simp add: timers_wf_def)
  then have "timers (clearIntervalRef (st\<lparr>analysisBlocked := True\<rparr>)) = []"
    by (rule clearIntervalRef_timers)
  then show ?thesis using ReadThrows by (simp add: intervalCallback_def)
next
  case (Data d)
  then show ?thesis
    by (simp add: intervalCallback_def Let_def sampleStep_keeps triggerAutoSwitch_keeps)
qed

lemma intervalCallback_wf:
  assumes "timers_wf st"
  shows "timers_wf (snd (intervalCallback cl rd now st))"
  using intervalCallback_timers [OF assms, of cl rd now] assms
  by (auto simp: timers_wf_def intervalCallback_keeps)

lemma handle_keeps_timers:
  assumes "timers_wf st"
  shows "timers (snd (handle ev st)) = [] \<or> timers (snd (handle ev st)) = timers st"
proof (cases ev)
  case (IntervalFires t rd now)
  show ?thesis
  proof (cases "map_of (timers st) t")
    case None
    then show ?thesis using IntervalFires by (simp add: timerFires_def)
  next
    case (Some cl)
    with intervalCallback_timers [OF assms, of cl rd now] show ?thesis
      using IntervalFires by (auto simp: timerFires_def case_prod_beta)
  qed
qed simp_all

lemma handle_wf:
  assumes "timers_wf st"
  shows "timers_wf (snd (handle ev st))"
proof (cases ev)
  case (IntervalFires t rd now)
  show ?thesis
  proof (cases "map_of (timers st) t")
    case None
    then show ?thesis using IntervalFires assms by (simp add: timerFires_def)
  next
    case (Some cl)
    with intervalCallback_wf [OF assms, of cl rd now] show ?thesis
      using IntervalFires by (simp add: timerFires_def case_prod_beta)
  qed
qed (use assms in \<open>simp_all add: timers_wf_def\<close>)

lemma settings_eqI:
  "enabled s = enabled s' \<Longrightarrow> sensitivity s = sensitivity s' \<Longrightarrow>
   speechSeconds s = speechSeconds s' \<Longrightarrow> cooldownSeconds s = cooldownSeconds s' \<Longrightarrow> s = s'"
  for s s' :: TalkKillerSettings
  by simp

lemma deps_eq:
  "deps st' = deps st \<Longrightarrow>
     currentId st' = currentId st \<and> fallbacks st' = fallbacks st \<and> settings st' = settings st"
  by (auto simp: deps_def intro: settings_eqI)

lemma fresh_transfer:
  assumes "closures_fresh st" "deps st' = deps st" "timers st' = [] \<or> timers st' = timers st"
  shows "closures_fresh st'"
  using assms deps_eq [OF assms(2)] by (auto simp: closures_fresh_def)

lemma step_inv:
  assumes "timers_wf st" "closures_fresh st"
  shows "timers_wf (snd (step env ev st)) \<and> closures_fresh (snd (step env ev st))"
proof (cases "deps (snd (handle ev st)) = deps st")
  case True
  then have "snd (step env ev st) = snd (handle ev st)"
    by (simp add: step_def commit_def case_prod_beta)
  then show ?thesis
    using handle_wf [OF assms(1), of ev]
      fresh_transfer [OF assms(2) True handle_keeps_timers [OF assms(1), of ev]]
    by simp
next
  case False
  then have "snd (step env ev st) = restartLoop env (snd (handle ev st))"
    by (simp add: step_def commit_def case_prod_beta)
  then show ?thesis using restartLoop_inv [OF handle_wf [OF assms(1), of ev], of env] by simp
qed

lemma reachable_inv: "reachable st \<Longrightarrow> timers_wf st \<and> closures_fresh st"
proof (induction rule: reachable.induct)
  case (reachable_mount env firstId storedFallbacks storedSettings)
  show ?case unfolding mount_def
    by (rule detectionEffect_inv) (simp_all add: initialApp_def)
next
  case (reachable_step st env ev)
  then show ?case using step_inv by blast
qed

lemma run_reachable:
  "reachable st \<Longrightarrow> reachable (snd (run evs st))"
proof (induction evs arbitrary: st)
  case Nil
  then show ?case by simp
next
  case (Cons a evs)
  obtain env ev where a: "a = (env, ev)" by (cases a)
  have "reachable (snd (step env ev st))" using Cons.prems by (rule reachable_step)
  from Cons.IH [OF this] show ?case by (simp add: a case_prod_beta)
qed

lemmas run_defs = step_def timerFires_def commit_def deps_def restartLoop_def
  effectCleanup_def detectionEffect_def setupAudioGraph_def clearIntervalRef_def
  intervalCallback_def sampleStep_def triggerAutoSwitch_def mount_def initialApp_def
  exampleEnv_def defaultSettings_def shortSettings_def speechTicks_def band_48000
  score_speechFrame score_musicFrame step_value_fraction accum_chain


lemma soloSession_eval:
  "soloSession =
     ([BelowThreshold, BelowThreshold, BelowThreshold, BelowThreshold, BelowThreshold,
       BelowThreshold, BelowThreshold, BelowThreshold, BelowThreshold, BelowThreshold],
      \<lparr>audioContextRef = True, sourceRef = True, analyserRef = True, intervalRef = Some 1,
       lastSwitchRef = 0, speechSecondsRef = 9007199254740991 / 4503599627370496, currentId = ''a'', isPlaying = True,
       analysisBlocked = False, speechScore = 1, speechLabel = ''Speech-ish'',
       fallbacks = [''a''], settings = shortSettings,
       timers = [(1, \<lparr>c_settings = shortSettings, c_currentId = ''a'', c_fallbacks = [''a''],
                       c_startIndex = 12, c_endIndex = 128\<rparr>)],
       nextTimerId = 2, switchLog = [], cleanupPending = True\<rparr>)"
  by (simp add: soloSession_def run_defs)

lemma triggerAutoSwitch_only_current:
  "set (c_fallbacks cl) \<subseteq> {c_currentId cl} \<Longrightarrow> triggerAutoSwitch cl st = st"
  by (rule nextFallback_no_switch) (rule nextFallback_only_current)

lemma intervalCallback_no_switch:
  assumes "triggerAutoSwitch cl = (\<lambda>s. s)"
  shows "currentId (snd (intervalCallback cl rd now st)) = currentId st \<and>
         switchLog (snd (intervalCallback cl rd now st)) = switchLog st"
  using assms
  by (simp add: intervalCallback_def Let_def sampleStep_keeps clearIntervalRef_keeps
      split: read_result.splits)

text \<open>
  Claim C6. In every state the player can reach in which the fallback list is empty or
  holds nothing but the current station's id, a tick changes neither the current station
  nor the log of switches: the closure of the live timer holds that same list and id, and
  \<^verbatim>\<open>triggerAutoSwitch\<close> returns without effect for them. For the list a with a playing
  the rotation gives a itself.
\<close>

theorem no_switch_without_alternative:
  assumes "reachable st" and "set (fallbacks st) \<subseteq> {currentId st}"
  shows "currentId (snd (step env (IntervalFires timer rd now) st)) = currentId st \<and>
         switchLog (snd (step env (IntervalFires timer rd now) st)) = switchLog st \<and>
         (\<forall>cl st'. set (c_fallbacks cl) \<subseteq> {c_currentId cl} \<longrightarrow> triggerAutoSwitch cl st' = st') \<and>
         nextFallback [''a''] ''a'' = Val ''a''"
proof -
  have ex: "nextFallback [''a''] ''a'' = Val ''a''"
    by (simp add: nextFallback_def indexOf_def js_index_def js_rem_def)
  have "currentId (snd (handle (IntervalFires timer rd now) st)) = currentId st \<and>
        switchLog (snd (handle (IntervalFires timer rd now) st)) = switchLog st"
  proof (cases "map_of (timers st) timer")
    case None
    then show ?thesis by (simp add: timerFires_def)
  next
    case (Some cl)
    then have "(timer, cl) \<in> set (timers st)" by (rule map_of_SomeD)
    with reachable_inv [OF assms(1)] have "c_fallbacks cl = fallbacks st" "c_currentId cl = currentId st"
      by (auto simp: closures_fresh_def)
    with assms(2) have "triggerAutoSwitch cl = (\<lambda>s. s)"
      by (intro ext triggerAutoSwitch_only_current) simp
    from intervalCallback_no_switch [OF this, of rd now st] Some show ?thesis
      by (simp add: timerFires_def case_prod_beta)
  qed
  then show ?thesis
    using ex by (simp add: step_def case_prod_beta commit_keeps triggerAutoSwitch_only_current)
qed

theorem no_switch_without_alternative_witness:
  "reachable (snd soloSession) \<and> set (fallbacks (snd soloSession)) \<subseteq> {currentId (snd soloSession)} \<and>
   fst (step exampleEnv (IntervalFires 1 (Data speechFrame) 70000) (snd soloSession)) = Some Fired \<and>
   currentId (snd (step exampleEnv (IntervalFires 1 (Data speechFrame) 70000) (snd soloSession))) = ''a'' \<and>
   switchLog (snd (step exampleEnv (IntervalFires 1 (Data speechFrame) 70000) (snd soloSession))) = [] \<and>
   set (c_fallbacks (exampleClosure\<lparr>c_fallbacks := [''a'']\<rparr>))
     \<subseteq> {c_currentId (exampleClosure\<lparr>c_fallbacks := [''a'']\<rparr>)} \<and>
   triggerAutoSwitch (exampleClosure\<lparr>c_fallbacks := [''a'']\<rparr>) exampleState = exampleState"
proof -
  have r: "reachable (snd soloSession)"
    unfolding soloSession_def by (intro run_reachable reachable_mount)
  have f: "set (fallbacks (snd soloSession)) \<subseteq> {currentId (snd soloSession)}"
    by (simp add: soloSession_eval)
  have p: "fst (step exampleEnv (IntervalFires 1 (Data speechFrame) 70000) (snd soloSession)) = Some Fired"
    by (simp add: soloSession_eval step_def timerFires_def intervalCallback_def sampleStep_def
        score_speechFrame shortSettings_def defaultSettings_def case_prod_beta
        step_value_fraction accum_chain)
  have c: "set (c_fallbacks (exampleClosure\<lparr>c_fallbacks := [''a'']\<rparr>))
     \<subseteq> {c_currentId (exampleClosure\<lparr>c_fallbacks := [''a'']\<rparr>)}"
    by (simp add: exampleClosure_def)
  from no_switch_without_alternative [OF r f, of exampleEnv 1 "Data speechFrame" 70000] r f p c
  show ?thesis by (simp add: soloSession_eval)
qed









section \<open>Restarting the loop\<close>

lemma fiveTickSession_eval:
  "fiveTickSession =
     ([BelowThreshold, BelowThreshold, BelowThreshold, BelowThreshold, BelowThreshold],
      \<lparr>audioContextRef = True, sourceRef = True, analyserRef = True, intervalRef = Some 1,
       lastSwitchRef = 0, speechSecondsRef = 1, currentId = ''a'', isPlaying = True,
       analysisBlocked = False, speechScore = 1, speechLabel = ''Speech-ish'',
       fallbacks = [''a'', ''b''], settings = defaultSettings,
       timers = [(1, \<lparr>c_settings = defaultSettings, c_currentId = ''a'',
                       c_fallbacks = [''a'', ''b''], c_startIndex = 12, c_endIndex = 128\<rparr>)],
       nextTimerId = 2, switchLog = [], cleanupPending = True\<rparr>)"
  by (simp add: fiveTickSession_def run_defs)

text \<open>
  Claim C5 says that the accumulated seconds are reset whenever the loop restarts. They
  are not: after five speech ticks the counter holds 1, and it still holds 1 when the
  loop has been restarted (a new timer is running) by pausing and resuming, by a change of
  the sensitivity, or by the choice of another station.
\<close>

theorem restart_resets_accumulation_counterexample:
  "speechSecondsRef (snd fiveTickSession) = 1 \<and>
   map fst (timers (snd (run [(exampleEnv, Pause), (exampleEnv, Play)] (snd fiveTickSession)))) = [2] \<and>
   speechSecondsRef (snd (run [(exampleEnv, Pause), (exampleEnv, Play)] (snd fiveTickSession))) = 1 \<and>
   speechSecondsRef (snd (run [(exampleEnv, Pause), (exampleEnv, Play)] (snd fiveTickSession))) \<noteq> 0 \<and>
   map fst (timers (snd (step exampleEnv (SetSettings (defaultSettings\<lparr>sensitivity := 0.5\<rparr>))
      (snd fiveTickSession)))) = [2] \<and>
   speechSecondsRef (snd (step exampleEnv (SetSettings (defaultSettings\<lparr>sensitivity := 0.5\<rparr>))
      (snd fiveTickSession))) = 1 \<and>
   map fst (timers (snd (step exampleEnv (SelectStation ''b'') (snd fiveTickSession)))) = [2] \<and>
   speechSecondsRef (snd (step exampleEnv (SelectStation ''b'') (snd fiveTickSession))) = 1"
  by (simp add: fiveTickSession_eval run_defs)

text \<open>
  Claim C5, amended. A restart of the loop leaves the accumulated seconds as they are,
  whatever causes it: play, pause, new settings, another station or a changed fallback
  list. They are set to 0 by every tick that is not classified as speech.
\<close>

theorem restart_keeps_accumulation:
  "speechSecondsRef (restartLoop env st) = speechSecondsRef st \<and>
   speechSecondsRef (snd (step env Play st)) = speechSecondsRef st \<and>
   speechSecondsRef (snd (step env Pause st)) = speechSecondsRef st \<and>
   speechSecondsRef (snd (step env (SetSettings s) st)) = speechSecondsRef st \<and>
   speechSecondsRef (snd (step env (SelectStation i) st)) = speechSecondsRef st \<and>
   speechSecondsRef (snd (step env (ToggleFallback i) st)) = speechSecondsRef st \<and>
   (analyserRef st \<and> \<not> scoreOf d (c_startIndex cl) (c_endIndex cl) \<ge> sensitivity (c_settings cl) \<longrightarrow>
      speechSecondsRef (snd (intervalCallback cl (Data d) now st)) = 0)"
  by (simp add: step_def commit_keeps restartLoop_keeps intervalCallback_Data
      sampleStep_speechSeconds triggerAutoSwitch_keeps)

theorem restart_keeps_accumulation_witness:
  "analyserRef (snd fiveTickSession) \<and>
   \<not> scoreOf musicFrame (c_startIndex exampleClosure) (c_endIndex exampleClosure)
       \<ge> sensitivity (c_settings exampleClosure) \<and>
   speechSecondsRef (snd fiveTickSession) = 1 \<and>
   speechSecondsRef (restartLoop exampleEnv (snd fiveTickSession)) = 1 \<and>
   speechSecondsRef (snd (intervalCallback exampleClosure (Data musicFrame) 1200 (snd fiveTickSession))) = 0"
  using restart_keeps_accumulation [where env = exampleEnv and st = "snd fiveTickSession"
      and d = musicFrame and cl = exampleClosure and now = 1200]
  by (simp add: fiveTickSession_eval exampleClosure_def defaultSettings_def band_48000 score_musicFrame)


section \<open>Analysis failures\<close>

lemma blockedSession_eval:
  "blockedSession =
     ([ReadFailed],
      \<lparr>audioContextRef = True, sourceRef = True, analyserRef = True, intervalRef = None,
       lastSwitchRef = 0, speechSecondsRef = 0, currentId = ''a'', isPlaying = True,
       analysisBlocked = True, speechScore = 0, speechLabel = ''Music'',
       fallbacks = [''a'', ''b''], settings = defaultSettings,
       timers = [], nextTimerId = 2, switchLog = [], cleanupPending = True\<rparr>)"
  by (simp add: blockedSession_def run_defs)

text \<open>
  Claim C7 says that after an analysis failure nothing is sampled or retried for that
  station. The code stops the loop and raises \<^verbatim>\<open>analysisBlocked\<close>, but the effect never
  consults that flag: when playback is paused and resumed on the same station, a new timer
  is started, its ticks read and score the analyser again while \<^verbatim>\<open>analysisBlocked\<close> is
  still set, and a graph setup that threw is attempted again.
\<close>

theorem analysis_failure_retried_after_restart:
  "analysisBlocked (snd blockedSession) \<and> timers (snd blockedSession) = [] \<and>
   currentId (snd (run [(exampleEnv, Pause), (exampleEnv, Play)] (snd blockedSession))) =
     currentId (snd blockedSession) \<and>
   analysisBlocked (snd (run [(exampleEnv, Pause), (exampleEnv, Play)] (snd blockedSession))) \<and>
   map fst (timers (snd (run [(exampleEnv, Pause), (exampleEnv, Play)] (snd blockedSession)))) = [2] \<and>
   run [(exampleEnv, IntervalFires 2 (Data speechFrame) 2000),
        (exampleEnv, IntervalFires 2 (Data speechFrame) 2200)]
     (snd (run [(exampleEnv, Pause), (exampleEnv, Play)] (snd blockedSession)))
     = ([BelowThreshold, BelowThreshold],
        snd (run [(exampleEnv, IntervalFires 2 (Data speechFrame) 2000),
                  (exampleEnv, IntervalFires 2 (Data speechFrame) 2200)]
               (snd (run [(exampleEnv, Pause), (exampleEnv, Play)] (snd blockedSession))))) \<and>
   analysisBlocked (snd (step (exampleEnv\<lparr>fault := CreateSourceThrows\<rparr>) Play
      (mount exampleEnv ''a'' [''a'', ''b''] defaultSettings))) \<and>
   timers (snd (step (exampleEnv\<lparr>fault := CreateSourceThrows\<rparr>) Play
      (mount exampleEnv ''a'' [''a'', ''b''] defaultSettings))) = [] \<and>
   map fst (timers (snd (run [(exampleEnv, Pause), (exampleEnv, Play)]
      (snd (step (exampleEnv\<lparr>fault := CreateSourceThrows\<rparr>) Play
         (mount exampleEnv ''a'' [''a'', ''b''] defaultSettings)))))) = [1]"
  by (simp add: blockedSession_eval run_defs)


end
